theory Spec2Isabelle
  imports Main "HOL-Library.Word" "HOL-Library.Multiset"
begin

section \<open>Strings of the host language\<close>

text \<open>
  A string of the program is a sequence of UTF-16 code units. ASCII literals are written
  through \<open>js\<close>.
\<close>

type_synonym code_unit = "16 word"
type_synonym jsstring = "code_unit list"

definition js :: "string \<Rightarrow> jsstring" where
  "js s = map (\<lambda>c. of_nat (of_char c)) s"

definition colon :: code_unit where
  "colon = 0x3A"

definition newline :: code_unit where
  "newline = 0xA"

text \<open>
  The code units removed by \<open>String.prototype.trim\<close>: the white space and line
  terminator code points of the language, all of them in the basic plane.
\<close>

definition isWhiteSpace :: "code_unit \<Rightarrow> bool" where
  "isWhiteSpace u \<longleftrightarrow>
     u \<in> {0x9, 0xA, 0xB, 0xC, 0xD, 0x20, 0xA0, 0x1680, 0x2028, 0x2029, 0x202F, 0x205F,
          0x3000, 0xFEFF}
     \<or> (0x2000 \<le> u \<and> u \<le> 0x200A)"

definition trim :: "jsstring \<Rightarrow> jsstring" where
  "trim s = rev (dropWhile isWhiteSpace (rev (dropWhile isWhiteSpace s)))"

definition includes_js :: "'a \<Rightarrow> 'a list \<Rightarrow> bool" where
  "includes_js c s \<longleftrightarrow> c \<in> set s"

text \<open>
  \<open>s.split(sep)\<close> for a separator of one code unit: never the empty array, the empty
  string gives one empty part.
\<close>

fun split_js :: "'a \<Rightarrow> 'a list \<Rightarrow> 'a list list" where
  "split_js sep [] = [[]]"
| "split_js sep (x # xs) =
     (if x = sep then [] # split_js sep xs
      else (case split_js sep xs of
              [] \<Rightarrow> [[x]]
            | p # ps \<Rightarrow> (x # p) # ps))"

text \<open>\<open>parts.join(sep)\<close>; the empty array joins to the empty string.\<close>

fun join_js :: "'a \<Rightarrow> 'a list list \<Rightarrow> 'a list" where
  "join_js sep [] = []"
| "join_js sep [p] = p"
| "join_js sep (p # q # ps) = p @ sep # join_js sep (q # ps)"

text \<open>\<open>parts.slice(k)\<close> is \<open>drop k parts\<close>; \<open>parts[0]\<close> of a split is its head.\<close>

text \<open>
  \<open>String.prototype.toLowerCase\<close> is a built-in of the host language that follows the
  Unicode case tables. The development is parametric in it: every function that calls it
  takes it as its first argument \<open>toLowerCase\<close>. \<open>lowerASCII\<close> is the instance used to
  evaluate examples; it maps \<open>A\<close>..\<open>Z\<close> only.
\<close>

definition lowerASCII :: "jsstring \<Rightarrow> jsstring" where
  "lowerASCII s = map (\<lambda>u. if 0x41 \<le> u \<and> u \<le> 0x5A then u + 0x20 else u) s"


section \<open>ResponseParser\<close>

record Flashcard =
  fc_emoji :: jsstring
  fc_term :: jsstring
  fc_definition :: jsstring

text \<open>Both failures of the program are \<open>throw new Error(message)\<close>.\<close>

datatype error = Error string

definition ValidationError :: error where
  "ValidationError = Error ''Invalid 'Term: Definition' format.''"

definition GenerationError :: error where
  "GenerationError =
     Error ''Could not generate flashcards. Please try a different topic or format.''"

subsection \<open>Key-value mode\<close>

definition isKeyValueInput :: "jsstring \<Rightarrow> bool" where
  "isKeyValueInput topic \<longleftrightarrow> includes_js colon topic \<and> includes_js newline topic"

text \<open>The line filter, shared by the topic and by the emoji response.\<close>

definition colonLines :: "jsstring \<Rightarrow> jsstring list" where
  "colonLines text =
     filter (\<lambda>line. trim line \<noteq> [] \<and> includes_js colon line) (split_js newline text)"

definition splitTermRest :: "jsstring \<Rightarrow> jsstring \<times> jsstring" where
  "splitTermRest line =
     (let parts = split_js colon line
      in (trim (hd parts), trim (join_js colon (drop 1 parts))))"

definition termDefPairs :: "jsstring \<Rightarrow> (jsstring \<times> jsstring) list" where
  "termDefPairs topic = map splitTermRest (colonLines topic)"

text \<open>
  \<open>terms.find(t => t.toLowerCase() === term.toLowerCase())\<close>: the first original term
  that matches, or \<open>undefined\<close>.
\<close>

definition findOriginal ::
  "(jsstring \<Rightarrow> jsstring) \<Rightarrow> jsstring list \<Rightarrow> jsstring \<Rightarrow> jsstring option" where
  "findOriginal toLowerCase terms t =
     List.find (\<lambda>t'. toLowerCase t' = toLowerCase t) terms"

text \<open>
  One response line's effect on the map. \<open>if (originalTerm)\<close> is false for
  \<open>undefined\<close> and for the empty string.
\<close>

definition emojiStep ::
  "(jsstring \<Rightarrow> jsstring) \<Rightarrow> jsstring list \<Rightarrow> jsstring \<Rightarrow> (jsstring \<rightharpoonup> jsstring)
     \<Rightarrow> (jsstring \<rightharpoonup> jsstring)" where
  "emojiStep toLowerCase terms line m =
     (case splitTermRest line of (t, e) \<Rightarrow>
        (case findOriginal toLowerCase terms t of
           None \<Rightarrow> m
         | Some originalTerm \<Rightarrow> if originalTerm \<noteq> [] then m(originalTerm \<mapsto> e) else m))"

definition emojiMap ::
  "(jsstring \<Rightarrow> jsstring) \<Rightarrow> jsstring list \<Rightarrow> jsstring \<Rightarrow> (jsstring \<rightharpoonup> jsstring)" where
  "emojiMap toLowerCase terms emojiResponse =
     fold (emojiStep toLowerCase terms) (colonLines emojiResponse) Map.empty"

text \<open>The default emoji, as the source file spells it: three code units.\<close>

definition defaultEmoji :: jsstring where
  "defaultEmoji = [0xE2, 0x153, 0xA8]"

text \<open>\<open>emojiMap.get(pair.term) || default\<close>: the default replaces \<open>undefined\<close> and \<open>''\<close>.\<close>

definition emojiFor :: "(jsstring \<rightharpoonup> jsstring) \<Rightarrow> jsstring \<Rightarrow> jsstring" where
  "emojiFor m t =
     (case m t of None \<Rightarrow> defaultEmoji | Some e \<Rightarrow> if e \<noteq> [] then e else defaultEmoji)"

definition combine ::
  "(jsstring \<times> jsstring) list \<Rightarrow> (jsstring \<rightharpoonup> jsstring) \<Rightarrow> Flashcard list" where
  "combine pairs m =
     map (\<lambda>(t, d). \<lparr>fc_emoji = emojiFor m t, fc_term = t, fc_definition = d\<rparr>) pairs"

definition keyValueCards ::
  "(jsstring \<Rightarrow> jsstring) \<Rightarrow> (jsstring \<times> jsstring) list \<Rightarrow> jsstring \<Rightarrow> Flashcard list" where
  "keyValueCards toLowerCase pairs emojiResponse =
     combine pairs (emojiMap toLowerCase (map fst pairs) emojiResponse)"

subsection \<open>Free-form mode\<close>

definition nonBlankLines :: "jsstring \<Rightarrow> jsstring list" where
  "nonBlankLines text = filter (\<lambda>line. trim line \<noteq> []) (split_js newline text)"

definition tripletOfLine :: "jsstring \<Rightarrow> Flashcard option" where
  "tripletOfLine line =
     (let parts = split_js colon line
      in if length parts \<ge> 3
         then Some \<lparr>fc_emoji = trim (parts ! 0), fc_term = trim (parts ! 1),
                    fc_definition = trim (join_js colon (drop 2 parts))\<rparr>
         else None)"

definition freeFormCards :: "jsstring \<Rightarrow> Flashcard list" where
  "freeFormCards flashcardsText = List.map_filter tripletOfLine (nonBlankLines flashcardsText)"

subsection \<open>The body of the generation request\<close>

text \<open>
  The request to the service is outside the model: \<open>reply\<close> is its outcome, the text of
  the response or the failure it raised. In key-value mode the request is made only after
  the pair list has passed its check.
\<close>

definition nonEmptyOrFail :: "Flashcard list \<Rightarrow> error + Flashcard list" where
  "nonEmptyOrFail flashcards = (if flashcards = [] then Inl GenerationError else Inr flashcards)"

definition keyValueGenerate ::
  "(jsstring \<Rightarrow> jsstring) \<Rightarrow> jsstring \<Rightarrow> error + jsstring \<Rightarrow> error + Flashcard list" where
  "keyValueGenerate toLowerCase topic reply =
     (let pairs = termDefPairs topic
      in if pairs = [] then Inl ValidationError
         else (case reply of
                 Inl e \<Rightarrow> Inl e
               | Inr emojiResponse \<Rightarrow>
                   nonEmptyOrFail (keyValueCards toLowerCase pairs emojiResponse)))"

definition freeFormGenerate :: "error + jsstring \<Rightarrow> error + Flashcard list" where
  "freeFormGenerate reply =
     (case reply of
        Inl e \<Rightarrow> Inl e
      | Inr flashcardsText \<Rightarrow> nonEmptyOrFail (freeFormCards flashcardsText))"

definition generate ::
  "(jsstring \<Rightarrow> jsstring) \<Rightarrow> jsstring \<Rightarrow> error + jsstring \<Rightarrow> error + Flashcard list" where
  "generate toLowerCase topic reply =
     (if isKeyValueInput topic then keyValueGenerate toLowerCase topic reply
      else freeFormGenerate reply)"


section \<open>Reordering the children of the container\<close>

text \<open>
  \<open>parent.insertBefore(node, child)\<close> on the list of the parent's children: it raises
  when \<open>child\<close> is not a child of the parent, does nothing to the order when \<open>node\<close> is
  \<open>child\<close>, and otherwise moves \<open>node\<close> from where it is to just before \<open>child\<close>.
  The children of an element are distinct, so equality identifies a node.
\<close>

definition insertBefore :: "'a \<Rightarrow> 'a \<Rightarrow> 'a list \<Rightarrow> 'a list option" where
  "insertBefore node child children =
     (if child \<notin> set children then None
      else if node = child then Some children
      else (let rest = remove1 node children
            in Some (takeWhile (\<lambda>x. x \<noteq> child) rest @ node # dropWhile (\<lambda>x. x \<noteq> child) rest)))"

text \<open>
  The loop \<open>for (i = cards.length - 1; i > 0; i--)\<close>. \<open>cards\<close> is the snapshot taken
  before the loop and is never written; \<open>children\<close> is the container's current order.
  \<open>rnd i\<close> is the value of \<open>Math.floor(Math.random() * (i + 1))\<close> in the round of
  \<open>i\<close>, a number from 0 to \<open>i\<close>. A \<open>j\<close> outside the snapshot would pass \<open>undefined\<close>
  to \<open>insertBefore\<close>, which raises: \<open>None\<close>. The handler starts \<open>i\<close> at the last
  index, so \<open>i\<close> is inside the snapshot in every round it runs; the function is \<open>None\<close>
  for any other \<open>i\<close>. For the empty list the start value \<open>-1\<close> and the natural number
  \<open>0\<close> agree: the body does not run.
\<close>

fun shuffleLoop :: "(nat \<Rightarrow> nat) \<Rightarrow> 'a list \<Rightarrow> nat \<Rightarrow> 'a list \<Rightarrow> 'a list option" where
  "shuffleLoop rnd cards 0 children = Some children"
| "shuffleLoop rnd cards (Suc k) children =
     (let i = Suc k; j = rnd i
      in if j < length cards \<and> i < length cards
         then (case insertBefore (cards ! j) (cards ! i) children of
                 None \<Rightarrow> None
               | Some children' \<Rightarrow> shuffleLoop rnd cards k children')
         else None)"

definition shuffle :: "(nat \<Rightarrow> nat) \<Rightarrow> 'a list \<Rightarrow> 'a list option" where
  "shuffle rnd cards = shuffleLoop rnd cards (length cards - 1) cards"

text \<open>
  The reference algorithm, written from its description: for each position \<open>i\<close> from the
  last down to 1, with \<open>j = rnd i\<close>, the elements at \<open>i\<close> and \<open>j\<close> are swapped.
\<close>

definition swap :: "nat \<Rightarrow> nat \<Rightarrow> 'a list \<Rightarrow> 'a list" where
  "swap i j xs = xs[i := xs ! j, j := xs ! i]"

fun fisherYatesLoop :: "(nat \<Rightarrow> nat) \<Rightarrow> nat \<Rightarrow> 'a list \<Rightarrow> 'a list" where
  "fisherYatesLoop rnd 0 xs = xs"
| "fisherYatesLoop rnd (Suc k) xs = fisherYatesLoop rnd k (swap (Suc k) (rnd (Suc k)) xs)"

definition fisherYates :: "(nat \<Rightarrow> nat) \<Rightarrow> 'a list \<Rightarrow> 'a list" where
  "fisherYates rnd xs = fisherYatesLoop rnd (length xs - 1) xs"


section \<open>ViewState\<close>

text \<open>
  A card is one \<open>.flashcard\<close> element of the container. \<open>handle\<close> stands for the
  element's identity; the flags are its classes \<open>flipped\<close>, \<open>active\<close> and \<open>removing\<close>.
\<close>

record card =
  handle :: nat
  content :: Flashcard
  flipped :: bool
  active :: bool
  removing :: bool

text \<open>
  The two state variables of the program and the parts of the page its handlers write.
  \<open>currentCardIndex\<close> only ever holds a natural number: it is set to \<open>0\<close> or to a
  remainder of a non-negative dividend. \<open>cardCounter\<close> holds the two numbers shown in the
  counter's text.
\<close>

record view =
  cards :: "card list"
  isFocusMode :: bool
  currentCardIndex :: nat
  focusModeClass :: bool
  modeSwitchText :: string
  modeSwitchHidden :: bool
  shuffleHidden :: bool
  focusNavHidden :: bool
  cardCounter :: "nat \<times> nat"
  errorMessage :: string
  generateDisabled :: bool
  topicInput :: jsstring

datatype direction = Next | Prev

definition resetUI :: "view \<Rightarrow> view" where
  "resetUI s =
     s\<lparr>isFocusMode := False, currentCardIndex := 0, focusModeClass := False,
       modeSwitchText := ''Focus Mode'', modeSwitchHidden := True, shuffleHidden := True,
       focusNavHidden := True\<rparr>"

definition setActive :: "nat \<Rightarrow> card list \<Rightarrow> card list" where
  "setActive k cs = map (\<lambda>(index, c). c\<lparr>active := (index = k)\<rparr>) (enumerate 0 cs)"

definition updateCardVisibility :: "view \<Rightarrow> view" where
  "updateCardVisibility s =
     (let hasCards = (cards s \<noteq> []);
          s1 = s\<lparr>shuffleHidden := \<not> hasCards, modeSwitchHidden := \<not> hasCards,
                 focusNavHidden := (\<not> isFocusMode s \<or> \<not> hasCards)\<rparr>
      in if \<not> hasCards
         then s1\<lparr>isFocusMode := False, focusModeClass := False,
                 modeSwitchText := ''Focus Mode''\<rparr>
         else if isFocusMode s
         then s1\<lparr>focusModeClass := True, modeSwitchText := ''Grid Mode'',
                 cards := setActive (currentCardIndex s) (cards s),
                 cardCounter := (currentCardIndex s + 1, length (cards s))\<rparr>
         else s1\<lparr>focusModeClass := False, modeSwitchText := ''Focus Mode'',
                 cards := map (\<lambda>c. c\<lparr>active := False\<rparr>) (cards s)\<rparr>)"

text \<open>
  The remainder operator of the host language truncates towards zero: the result has the
  sign of the dividend. The divisor is a card count of at least 2 here.
\<close>

definition js_rem :: "int \<Rightarrow> int \<Rightarrow> int" where
  "js_rem a b = sgn a * (\<bar>a\<bar> mod \<bar>b\<bar>)"

text \<open>
  The index after a step, as the handler computes it. With two or more cards it lies
  between 0 and the card count (lemma \<open>newIndex_range\<close>), so storing it as a natural
  number loses nothing.
\<close>

definition newIndex :: "direction \<Rightarrow> nat \<Rightarrow> nat \<Rightarrow> int" where
  "newIndex d i n =
     (case d of
        Next \<Rightarrow> js_rem (int i + 1) (int n)
      | Prev \<Rightarrow> js_rem (int i - 1 + int n) (int n))"

definition unflipAt :: "nat \<Rightarrow> card list \<Rightarrow> card list" where
  "unflipAt i cs = (if i < length cs then cs[i := (cs ! i)\<lparr>flipped := False\<rparr>] else cs)"

definition navigateCards :: "direction \<Rightarrow> view \<Rightarrow> view" where
  "navigateCards d s =
     (if length (cards s) \<le> 1 then s
      else updateCardVisibility
             (s\<lparr>cards := unflipAt (currentCardIndex s) (cards s),
                currentCardIndex := nat (newIndex d (currentCardIndex s) (length (cards s)))\<rparr>))"

definition modeSwitchClick :: "view \<Rightarrow> view" where
  "modeSwitchClick s =
     (let s1 = s\<lparr>isFocusMode := \<not> isFocusMode s\<rparr>
      in updateCardVisibility
           (if isFocusMode s1 then s1\<lparr>currentCardIndex := 0\<rparr>
            else s1\<lparr>cards := map (\<lambda>c. c\<lparr>flipped := False\<rparr>) (cards s1)\<rparr>))"

text \<open>
  Deleting a card: the click marks it \<open>removing\<close>; when its transition has ended the
  element leaves the container and the visibility is recomputed.
\<close>

definition deleteClick :: "nat \<Rightarrow> view \<Rightarrow> view" where
  "deleteClick h s =
     s\<lparr>cards := map (\<lambda>c. if handle c = h then c\<lparr>removing := True\<rparr> else c) (cards s)\<rparr>"

definition removeCard :: "nat \<Rightarrow> view \<Rightarrow> view" where
  "removeCard h s = updateCardVisibility (s\<lparr>cards := filter (\<lambda>c. handle c \<noteq> h) (cards s)\<rparr>)"

definition flipClick :: "nat \<Rightarrow> view \<Rightarrow> view" where
  "flipClick h s =
     s\<lparr>cards := map (\<lambda>c. if handle c = h then c\<lparr>flipped := \<not> flipped c\<rparr> else c) (cards s)\<rparr>"

subsection \<open>The shuffle handler\<close>

text \<open>The handler changes the order only; \<open>None\<close> when the loop raised.\<close>

definition shuffleClick :: "(nat \<Rightarrow> nat) \<Rightarrow> view \<Rightarrow> view option" where
  "shuffleClick rnd s = map_option (\<lambda>cs. s\<lparr>cards := cs\<rparr>) (shuffle rnd (cards s))"

subsection \<open>The generate handler\<close>

definition newCard :: "nat \<Rightarrow> Flashcard \<Rightarrow> card" where
  "newCard h cardData =
     \<lparr>handle = h, content = cardData, flipped = False, active = False, removing = False\<rparr>"

definition addCards :: "Flashcard list \<Rightarrow> view \<Rightarrow> view" where
  "addCards flashcards s =
     s\<lparr>cards := cards s @ map (\<lambda>(k, cardData). newCard k cardData)
                              (enumerate (length (cards s)) flashcards)\<rparr>"

text \<open>
  An empty topic returns before the \<open>try\<close>: the container is cleared and nothing else is
  recomputed. Otherwise the \<open>finally\<close> block re-enables the button and recomputes the
  visibility on both outcomes.
\<close>

definition generateClick :: "(jsstring \<Rightarrow> jsstring) \<Rightarrow> error + jsstring \<Rightarrow> view \<Rightarrow> view" where
  "generateClick toLowerCase reply s =
     (let topic = trim (topicInput s)
      in if topic = []
         then s\<lparr>errorMessage := ''Please enter a topic or some terms and definitions.'',
                cards := []\<rparr>
         else (let s1 = (resetUI (s\<lparr>errorMessage := ''Generating flashcards...'',
                                     cards := []\<rparr>))\<lparr>generateDisabled := True\<rparr>
               in (case generate toLowerCase topic reply of
                     Inr flashcards \<Rightarrow>
                       updateCardVisibility
                         ((addCards flashcards (s1\<lparr>errorMessage := []\<rparr>))
                            \<lparr>topicInput := [], generateDisabled := False\<rparr>)
                   | Inl e \<Rightarrow>
                       updateCardVisibility
                         (s1\<lparr>errorMessage :=
                                ''An error occurred. Please check the console and try again.'',
                              generateDisabled := False\<rparr>))))"

text \<open>
  The page before the first request: the two state variables as they are initialised, the
  controls as \<open>resetUI\<close> leaves them.
\<close>

definition initialView :: view where
  "initialView =
     \<lparr>cards = [], isFocusMode = False, currentCardIndex = 0, focusModeClass = False,
      modeSwitchText = ''Focus Mode'', modeSwitchHidden = True, shuffleHidden = True,
      focusNavHidden = True, cardCounter = (0, 0), errorMessage = [],
      generateDisabled = False, topicInput = []\<rparr>"


section \<open>Descriptions and example inputs used in the statements\<close>

text \<open>The text of a line before its first colon, and the text after it.\<close>

definition beforeFirstColon :: "jsstring \<Rightarrow> jsstring" where
  "beforeFirstColon line = takeWhile (\<lambda>u. u \<noteq> colon) line"

definition afterFirstColon :: "jsstring \<Rightarrow> jsstring" where
  "afterFirstColon line = tl (dropWhile (\<lambda>u. u \<noteq> colon) line)"

text \<open>A topic of two lines, the first with a colon inside its definition.\<close>

definition exampleTopic :: jsstring where
  "exampleTopic = js ''HTTP: A protocol: for transferring data'' @ newline # js '' Dog :x ''"

text \<open>
  The record read from a free-form line, and the lines that give one: non-blank, with at
  least three parts between colons.
\<close>

definition tripletRecord :: "jsstring \<Rightarrow> Flashcard" where
  "tripletRecord line =
     \<lparr>fc_emoji = trim (split_js colon line ! 0), fc_term = trim (split_js colon line ! 1),
      fc_definition = trim (join_js colon (drop 2 (split_js colon line)))\<rparr>"

definition qualifies :: "jsstring \<Rightarrow> bool" where
  "qualifies line \<longleftrightarrow> trim line \<noteq> [] \<and> 3 \<le> length (split_js colon line)"

text \<open>
  A free-form response with two well-formed lines among five, and one with none.
\<close>

definition exampleResponse :: jsstring where
  "exampleResponse =
     js ''x: Cat: small: feline'' @ newline # js ''no colon here'' @ newline # js ''one: colon''
       @ newline # js ''   '' @ newline # js ''y:Dog:canine''"

definition droppedResponse :: jsstring where
  "droppedResponse = js ''Sorry, I cannot help.'' @ newline # js ''Reason: none''"


text \<open>
  The lines of the emoji response that pass the line filter and whose term equals \<open>t\<close>
  up to case.
\<close>

definition matchingLines :: "(jsstring \<Rightarrow> jsstring) \<Rightarrow> jsstring \<Rightarrow> jsstring \<Rightarrow> jsstring list" where
  "matchingLines toLowerCase emojiResponse t =
     filter (\<lambda>line. toLowerCase (fst (splitTermRest line)) = toLowerCase t)
       (colonLines emojiResponse)"

text \<open>
  Three pairs and an emoji response: one line matches \<open>Cat\<close> in another case, one
  matches no term, one matches \<open>Emu\<close> with nothing after the colon.
\<close>

definition examplePairs :: "(jsstring \<times> jsstring) list" where
  "examplePairs = [(js ''Cat'', js ''A feline''), (js ''Dog'', js ''A canine''),
                   (js ''Emu'', js ''A bird'')]"

definition exampleEmojis :: jsstring where
  "exampleEmojis = js ''CAT: c'' @ newline # js ''Zebra: z'' @ newline # js ''emu:''"


text \<open>
  A free-form response of three lines and the three records it parses to; the page after
  that request; the page after switching to focus mode and pressing next twice; and the
  page after switching back to grid mode there and deleting two of the three cards.
\<close>

definition threeLines :: jsstring where
  "threeLines = js ''a:Ant:x'' @ newline # js ''b:Bee:y'' @ newline # js ''c:Cat:z''"

definition threeRecords :: "Flashcard list" where
  "threeRecords =
     [\<lparr>fc_emoji = js ''a'', fc_term = js ''Ant'', fc_definition = js ''x''\<rparr>,
      \<lparr>fc_emoji = js ''b'', fc_term = js ''Bee'', fc_definition = js ''y''\<rparr>,
      \<lparr>fc_emoji = js ''c'', fc_term = js ''Cat'', fc_definition = js ''z''\<rparr>]"

definition threeCards :: view where
  "threeCards = updateCardVisibility (addCards threeRecords initialView)"

definition focusedOnLast :: view where
  "focusedOnLast = navigateCards Next (navigateCards Next (modeSwitchClick threeCards))"




text \<open>In focus mode with cards on the page, the index points at one of them.\<close>

definition focusInvariant :: "view \<Rightarrow> bool" where
  "focusInvariant s \<longleftrightarrow>
     (isFocusMode s \<and> cards s \<noteq> [] \<longrightarrow> currentCardIndex s < length (cards s))"


section \<open>Splitting, joining and trimming\<close>

lemma split_js_nonempty: "split_js sep s \<noteq> []"
  by (induction s) (auto split: list.splits)

lemma hd_split_js: "hd (split_js sep s) = takeWhile (\<lambda>x. x \<noteq> sep) s"
  by (induction s) (auto split: list.splits simp: split_js_nonempty)

lemma split_js_no_sep: "sep \<notin> set s \<Longrightarrow> split_js sep s = [s]"
  by (induction s) (auto split: list.splits)

lemma split_js_append_sep:
  "sep \<notin> set p \<Longrightarrow> split_js sep (p @ sep # r) = p # split_js sep r"
  by (induction p) (auto split: list.splits simp: split_js_nonempty)

lemma join_split_js: "join_js sep (split_js sep s) = s"
proof (induction s)
  case Nil
  show ?case by simp
next
  case (Cons x xs)
  obtain p ps where ps: "split_js sep xs = p # ps"
    using split_js_nonempty [of sep xs] by (cases "split_js sep xs") auto
  show ?case
  proof (cases "x = sep")
    case True
    with Cons ps show ?thesis by simp
  next
    case False
    with Cons ps show ?thesis by (cases ps) auto
  qed
qed

lemma tl_split_js:
  assumes "sep \<in> set s"
  shows "tl (split_js sep s) = split_js sep (tl (dropWhile (\<lambda>x. x \<noteq> sep) s))"
proof -
  define p where "p = takeWhile (\<lambda>x. x \<noteq> sep) s"
  define r where "r = tl (dropWhile (\<lambda>x. x \<noteq> sep) s)"
  have d: "dropWhile (\<lambda>x. x \<noteq> sep) s \<noteq> []" using assms by simp
  have "hd (dropWhile (\<lambda>x. x \<noteq> sep) s) = sep"
    using hd_dropWhile [OF d] by simp
  with d have "dropWhile (\<lambda>x. x \<noteq> sep) s = sep # r"
    unfolding r_def by (cases "dropWhile (\<lambda>x. x \<noteq> sep) s") auto
  then have s: "s = p @ sep # r"
    unfolding p_def using takeWhile_dropWhile_id [of "\<lambda>x. x \<noteq> sep" s] by simp
  have "sep \<notin> set p" unfolding p_def by (auto dest: set_takeWhileD)
  then have "split_js sep (p @ sep # r) = p # split_js sep r"
    by (rule split_js_append_sep)
  with s show ?thesis by (simp add: r_def)
qed

lemma join_tl_split_js:
  "sep \<in> set s \<Longrightarrow> join_js sep (tl (split_js sep s)) = tl (dropWhile (\<lambda>x. x \<noteq> sep) s)"
  by (simp add: tl_split_js join_split_js)

lemma length_split_js: "length (split_js sep s) = Suc (count_list s sep)"
  by (induction s) (auto split: list.splits simp: split_js_nonempty)

lemma set_split_js: "c \<in> set s \<Longrightarrow> c \<noteq> sep \<Longrightarrow> \<exists>l\<in>set (split_js sep s). c \<in> set l"
  by (induction s) (auto split: list.splits simp: split_js_nonempty)

lemma colon_not_space: "\<not> isWhiteSpace colon"
  by (simp add: isWhiteSpace_def colon_def)

lemma trim_eq_Nil: "trim s = [] \<longleftrightarrow> (\<forall>u\<in>set s. isWhiteSpace u)"
proof
  assume "trim s = []"
  then have "\<forall>u\<in>set (dropWhile isWhiteSpace s). isWhiteSpace u"
    by (simp add: trim_def dropWhile_eq_Nil_conv)
  then have "dropWhile isWhiteSpace s = []"
    using hd_dropWhile [of isWhiteSpace s] by (cases "dropWhile isWhiteSpace s") auto
  then show "\<forall>u\<in>set s. isWhiteSpace u"
    by (simp add: dropWhile_eq_Nil_conv)
next
  assume "\<forall>u\<in>set s. isWhiteSpace u"
  then have "dropWhile isWhiteSpace s = []"
    by (simp add: dropWhile_eq_Nil_conv)
  then show "trim s = []"
    by (simp add: trim_def del: dropWhile_eq_Nil_conv)
qed

lemma colon_line_not_blank: "colon \<in> set line \<Longrightarrow> trim line \<noteq> []"
  using colon_not_space by (auto simp: trim_eq_Nil)

section \<open>Key-value mode: the pairs\<close>

lemma splitTermRest_colon:
  "colon \<in> set line \<Longrightarrow>
     splitTermRest line = (trim (beforeFirstColon line), trim (afterFirstColon line))"
  by (simp add: splitTermRest_def beforeFirstColon_def afterFirstColon_def hd_split_js
      join_tl_split_js drop_Suc)

lemma colonLines_eq:
  "colonLines text = filter (\<lambda>line. colon \<in> set line) (split_js newline text)"
  unfolding colonLines_def includes_js_def
  by (rule filter_cong) (auto dest: colon_line_not_blank)

lemma termDefPairs_eq:
  "termDefPairs topic =
     map (\<lambda>line. (trim (beforeFirstColon line), trim (afterFirstColon line)))
       (colonLines topic)"
  unfolding termDefPairs_def
  by (rule map_cong) (auto simp: colonLines_eq splitTermRest_colon)

text \<open>
  Claim C4. In key-value mode, for every input with at least one line that contains a
  colon, the parser gives one term/definition pair per non-blank line that contains a
  colon, in the order of the lines; the term is the text before the line's first colon,
  trimmed, and the definition is the whole text after that first colon (later colons
  kept), trimmed. The pair list is not empty.
\<close>

theorem keyValue_one_pair_per_colon_line:
  assumes "\<exists>line\<in>set (split_js newline topic). includes_js colon line"
  shows "termDefPairs topic =
           map (\<lambda>line. (trim (beforeFirstColon line), trim (afterFirstColon line)))
             (filter (\<lambda>line. trim line \<noteq> [] \<and> includes_js colon line)
                (split_js newline topic))
         \<and> length (termDefPairs topic) =
             length (filter (\<lambda>line. includes_js colon line) (split_js newline topic))
         \<and> termDefPairs topic \<noteq> []"
proof -
  have a: "termDefPairs topic =
           map (\<lambda>line. (trim (beforeFirstColon line), trim (afterFirstColon line)))
             (filter (\<lambda>line. trim line \<noteq> [] \<and> includes_js colon line)
                (split_js newline topic))"
    using termDefPairs_eq [of topic] by (simp add: colonLines_def)
  have b: "length (termDefPairs topic) =
             length (filter (\<lambda>line. includes_js colon line) (split_js newline topic))"
    by (simp add: termDefPairs_def colonLines_eq includes_js_def)
  from assms have "filter (\<lambda>line. includes_js colon line) (split_js newline topic) \<noteq> []"
    by (simp add: filter_empty_conv)
  with b have "termDefPairs topic \<noteq> []" by auto
  with a b show ?thesis by blast
qed

theorem keyValue_one_pair_per_colon_line_witness:
  "(\<exists>line\<in>set (split_js newline exampleTopic). includes_js colon line)
   \<and> termDefPairs exampleTopic =
       [(js ''HTTP'', js ''A protocol: for transferring data''), (js ''Dog'', js ''x'')]
   \<and> length (termDefPairs exampleTopic) = 2"
proof -
  have h: "\<exists>line\<in>set (split_js newline exampleTopic). includes_js colon line"
    by (simp add: exampleTopic_def js_def newline_def colon_def includes_js_def)
  have e: "map (\<lambda>line. (trim (beforeFirstColon line), trim (afterFirstColon line)))
             (filter (\<lambda>line. trim line \<noteq> [] \<and> includes_js colon line)
                (split_js newline exampleTopic))
           = [(js ''HTTP'', js ''A protocol: for transferring data''), (js ''Dog'', js ''x'')]"
    by (simp add: exampleTopic_def js_def newline_def colon_def includes_js_def trim_def
        isWhiteSpace_def beforeFirstColon_def afterFirstColon_def)
  show ?thesis
    using h e keyValue_one_pair_per_colon_line [OF h] by simp
qed


section \<open>Key-value mode: the check of the pair list\<close>

lemma colonLines_nonempty:
  assumes "includes_js colon topic"
  shows "colonLines topic \<noteq> []"
proof -
  have "colon \<noteq> newline" by (simp add: colon_def newline_def)
  with assms obtain line where "line \<in> set (split_js newline topic)" "colon \<in> set line"
    using set_split_js [of colon topic newline] by (auto simp: includes_js_def)
  then show ?thesis
    by (auto simp: colonLines_eq filter_empty_conv)
qed

text \<open>
  Claim C10. When key-value mode is selected (the topic contains a colon and a newline),
  the line filter keeps at least one line, the pair list is not empty, and the request does
  not end in the branch that raises the validation error: its result is the failure of
  the service call, or the cards made from the pairs.
\<close>

theorem keyValue_check_always_passes:
  assumes "isKeyValueInput topic"
  shows "colonLines topic \<noteq> [] \<and> termDefPairs topic \<noteq> []
         \<and> generate toLowerCase topic (Inr emojiResponse) =
             Inr (keyValueCards toLowerCase (termDefPairs topic) emojiResponse)
         \<and> generate toLowerCase topic (Inl e) = Inl e"
proof -
  from assms have l: "colonLines topic \<noteq> []"
    by (simp add: isKeyValueInput_def colonLines_nonempty)
  then have p: "termDefPairs topic \<noteq> []"
    by (simp add: termDefPairs_def)
  then have "keyValueCards toLowerCase (termDefPairs topic) emojiResponse \<noteq> []"
    by (simp add: keyValueCards_def combine_def)
  with l p assms show ?thesis
    by (simp add: generate_def keyValueGenerate_def nonEmptyOrFail_def)
qed

theorem keyValue_check_always_passes_witness:
  "isKeyValueInput exampleTopic \<and> termDefPairs exampleTopic \<noteq> []
   \<and> generate lowerASCII exampleTopic (Inl (Error ''offline'')) = Inl (Error ''offline'')"
proof -
  have h: "isKeyValueInput exampleTopic"
    by (simp add: isKeyValueInput_def exampleTopic_def js_def newline_def colon_def
        includes_js_def)
  show ?thesis
    using h keyValue_check_always_passes [OF h, of lowerASCII "[]" "Error ''offline''"]
    by simp
qed


section \<open>Free-form mode\<close>

lemma tripletOfLine_eq:
  "tripletOfLine line =
     (if 3 \<le> length (split_js colon line) then Some (tripletRecord line) else None)"
  by (simp add: tripletOfLine_def tripletRecord_def Let_def)

lemma freeFormCards_eq:
  "freeFormCards text = map tripletRecord (filter qualifies (split_js newline text))"
proof -
  have "List.map_filter tripletOfLine ls
          = map tripletRecord (filter (\<lambda>line. 3 \<le> length (split_js colon line)) ls)" for ls
    by (induction ls) (simp_all add: List.map_filter_simps tripletOfLine_eq)
  then show ?thesis
    by (simp add: freeFormCards_def nonBlankLines_def qualifies_def [abs_def] conj_commute)
qed

text \<open>
  Claim C6. In free-form mode the records are those of the non-blank lines with at least
  three parts between colons, in order; a line with fewer than three parts (fewer than two
  colons) gives no record and no failure; when no line qualifies the request fails with
  the generation error, and it never returns an empty list.
\<close>

theorem freeForm_short_lines_dropped:
  "freeFormCards text = map tripletRecord (filter qualifies (split_js newline text))
   \<and> (length (split_js colon line) < 3 \<longrightarrow> tripletOfLine line = None \<and> \<not> qualifies line)
   \<and> length (split_js colon line) = Suc (count_list line colon)
   \<and> freeFormGenerate (Inr text) =
       (if filter qualifies (split_js newline text) = [] then Inl GenerationError
        else Inr (freeFormCards text))
   \<and> freeFormGenerate (Inr text) \<noteq> Inr []"
proof -
  have "freeFormGenerate (Inr text) \<noteq> Inr []"
    by (simp add: freeFormGenerate_def nonEmptyOrFail_def)
  moreover have "freeFormGenerate (Inr text) =
       (if filter qualifies (split_js newline text) = [] then Inl GenerationError
        else Inr (freeFormCards text))"
    by (simp add: freeFormGenerate_def nonEmptyOrFail_def freeFormCards_eq)
  ultimately show ?thesis
    by (simp add: freeFormCards_eq tripletOfLine_eq qualifies_def length_split_js)
qed

theorem freeForm_short_lines_dropped_witness:
  "freeFormCards exampleResponse =
     [\<lparr>fc_emoji = js ''x'', fc_term = js ''Cat'', fc_definition = js ''small: feline''\<rparr>,
      \<lparr>fc_emoji = js ''y'', fc_term = js ''Dog'', fc_definition = js ''canine''\<rparr>]
   \<and> length (split_js colon (js ''one: colon'')) < 3
   \<and> tripletOfLine (js ''one: colon'') = None
   \<and> freeFormGenerate (Inr droppedResponse) = Inl GenerationError"
proof -
  have l: "length (split_js colon (js ''one: colon'')) < 3"
    by (simp add: js_def colon_def)
  have q: "filter qualifies (split_js newline droppedResponse) = []"
    by (simp add: droppedResponse_def qualifies_def js_def colon_def newline_def trim_def
        isWhiteSpace_def)
  have e: "map tripletRecord (filter qualifies (split_js newline exampleResponse)) =
     [\<lparr>fc_emoji = js ''x'', fc_term = js ''Cat'', fc_definition = js ''small: feline''\<rparr>,
      \<lparr>fc_emoji = js ''y'', fc_term = js ''Dog'', fc_definition = js ''canine''\<rparr>]"
    by (simp add: exampleResponse_def qualifies_def tripletRecord_def js_def colon_def
        newline_def trim_def isWhiteSpace_def)
  show ?thesis
    using l q e freeForm_short_lines_dropped [of exampleResponse "js ''one: colon''"]
      freeForm_short_lines_dropped [of droppedResponse "js ''one: colon''"]
    by simp
qed


section \<open>Key-value mode: the emoji of each term\<close>

lemma defaultEmoji_nonempty: "defaultEmoji \<noteq> []"
  by (simp add: defaultEmoji_def)

lemma emojiFor_nonempty: "emojiFor m t \<noteq> []"
  by (simp add: emojiFor_def defaultEmoji_nonempty split: option.splits)

lemma findOriginal_Some:
  "findOriginal L terms r = Some t \<Longrightarrow> L r = L t \<and> t \<in> set terms"
  by (auto simp: findOriginal_def find_Some_iff)

lemma findOriginal_first:
  assumes "findOriginal L terms t = Some t"
  shows "findOriginal L terms r = Some t \<longleftrightarrow> L r = L t"
proof
  assume "findOriginal L terms r = Some t"
  then show "L r = L t" by (simp add: findOriginal_Some)
next
  assume "L r = L t"
  with assms show "findOriginal L terms r = Some t" by (simp add: findOriginal_def)
qed

text \<open>The map after all lines: the emoji of the last line assigned to the term.\<close>

lemma fold_emojiStep_lookup:
  "fold (emojiStep L terms) ls Map.empty t =
     (case filter (\<lambda>line. findOriginal L terms (fst (splitTermRest line)) = Some t \<and> t \<noteq> []) ls of
        [] \<Rightarrow> None
      | l # ls' \<Rightarrow> Some (snd (splitTermRest (last (l # ls')))))"
  (is "_ = (case filter ?P ls of [] \<Rightarrow> None | l # ls' \<Rightarrow> ?g (last (l # ls')))")
proof (induction ls rule: rev_induct)
  case Nil
  show ?case by simp
next
  case (snoc l ls)
  obtain r e where re: "splitTermRest l = (r, e)" by (cases "splitTermRest l")
  show ?case
  proof (cases "?P l")
    case True
    then have eq: "filter ?P (ls @ [l]) = filter ?P ls @ [l]" by simp
    have "(case filter ?P ls @ [l] of [] \<Rightarrow> None | l # ls' \<Rightarrow> ?g (last (l # ls')))
                 = ?g l"
      by (cases "filter ?P ls") simp_all
    then have "(case filter ?P (ls @ [l]) of [] \<Rightarrow> None | l # ls' \<Rightarrow> ?g (last (l # ls')))
                 = ?g l"
      by (simp only: eq)
    moreover have "fold (emojiStep L terms) (ls @ [l]) Map.empty t = ?g l"
      using True re by (simp add: emojiStep_def)
    ultimately show ?thesis by simp
  next
    case False
    then have "filter ?P (ls @ [l]) = filter ?P ls" by simp
    moreover have "fold (emojiStep L terms) (ls @ [l]) Map.empty t
                     = fold (emojiStep L terms) ls Map.empty t"
      using False re by (auto simp: emojiStep_def split: option.splits)
    ultimately show ?thesis using snoc by simp
  qed
qed

lemma emojiMap_None:
  assumes "\<forall>line\<in>set (colonLines R). L (fst (splitTermRest line)) \<noteq> L t"
  shows "emojiMap L terms R t = None"
proof -
  have "filter (\<lambda>line. findOriginal L terms (fst (splitTermRest line)) = Some t \<and> t \<noteq> [])
          (colonLines R) = []"
    using assms by (auto simp: filter_empty_conv dest: findOriginal_Some)
  then show ?thesis by (simp add: emojiMap_def fold_emojiStep_lookup)
qed

lemma emojiMap_Some:
  assumes "emojiMap L terms R t = Some e"
  shows "\<exists>line\<in>set (colonLines R). L (fst (splitTermRest line)) = L t \<and> e = snd (splitTermRest line)"
proof -
  let ?P = "\<lambda>line. findOriginal L terms (fst (splitTermRest line)) = Some t \<and> t \<noteq> []"
  define z where "z = last (filter ?P (colonLines R))"
  from assms have f: "filter ?P (colonLines R) \<noteq> []" and e: "e = snd (splitTermRest z)"
    by (auto simp: emojiMap_def fold_emojiStep_lookup z_def split: list.splits)
  from f have "z \<in> set (filter ?P (colonLines R))"
    unfolding z_def by (rule last_in_set)
  then have z: "z \<in> set (colonLines R)" and "?P z"
    by auto
  then have "L (fst (splitTermRest z)) = L t"
    using findOriginal_Some by blast
  with z e show ?thesis by blast
qed

lemma emojiMap_first:
  assumes "findOriginal L terms t = Some t" "t \<noteq> []"
  shows "emojiMap L terms R t =
     (case matchingLines L R t of [] \<Rightarrow> None
      | l # ls' \<Rightarrow> Some (snd (splitTermRest (last (l # ls')))))"
  using assms
  by (simp add: emojiMap_def fold_emojiStep_lookup matchingLines_def findOriginal_first)

lemma matchingLines_empty:
  "matchingLines L R t = [] \<longleftrightarrow> (\<forall>line\<in>set (colonLines R). L (fst (splitTermRest line)) \<noteq> L t)"
  by (simp add: matchingLines_def filter_empty_conv)

lemma emojiFor_no_match:
  "matchingLines L R t = [] \<Longrightarrow> emojiFor (emojiMap L terms R) t = defaultEmoji"
  by (simp add: emojiFor_def matchingLines_empty emojiMap_None)

lemma emojiFor_from_line:
  assumes "emojiFor (emojiMap L terms R) t \<noteq> defaultEmoji"
  shows "\<exists>line\<in>set (matchingLines L R t).
           emojiFor (emojiMap L terms R) t = snd (splitTermRest line)"
proof -
  from assms obtain e where e: "emojiMap L terms R t = Some e" "e \<noteq> []"
    by (auto simp: emojiFor_def split: option.splits if_splits)
  then have "emojiFor (emojiMap L terms R) t = e" by (simp add: emojiFor_def)
  with emojiMap_Some [OF e(1)] show ?thesis
    by (auto simp: matchingLines_def)
qed

lemma emojiFor_first:
  assumes "findOriginal L terms t = Some t" "t \<noteq> []" "matchingLines L R t \<noteq> []"
  shows "emojiFor (emojiMap L terms R) t =
           (if snd (splitTermRest (last (matchingLines L R t))) \<noteq> []
            then snd (splitTermRest (last (matchingLines L R t))) else defaultEmoji)"
proof -
  from assms(3) obtain l ls' where m: "matchingLines L R t = l # ls'"
    by (cases "matchingLines L R t") auto
  have "emojiMap L terms R t = Some (snd (splitTermRest (last (matchingLines L R t))))"
    using emojiMap_first [OF assms(1,2), of R] by (simp add: m)
  then show ?thesis by (simp add: emojiFor_def)
qed

text \<open>
  The first original term with a given lower-case form is the one \<open>find\<close> returns for it.
\<close>

lemma findOriginal_first_of_case:
  assumes "k < length terms" "terms ! k = t" "\<forall>j<k. L (terms ! j) \<noteq> L t"
  shows "findOriginal L terms t = Some t"
  unfolding findOriginal_def find_Some_iff
  using assms by (intro exI [of _ k]) auto

text \<open>
  Claim C5. The records keep the original terms and definitions as they were written. The
  emoji of a record is never empty. It is the default emoji when no line of the response
  equals the record's term up to case, and any other emoji comes from a line whose term
  equals the record's term up to case. When the record's term is not empty and no
  original term before its first occurrence has the same lower-case form, the emoji is
  that of the last response line equal to the term up to case, or the default when that
  line has none.
\<close>

theorem emoji_matching_case_insensitive:
  "map fc_term (keyValueCards L pairs R) = map fst pairs
   \<and> map fc_definition (keyValueCards L pairs R) = map snd pairs
   \<and> (\<forall>c\<in>set (keyValueCards L pairs R).
        fc_emoji c \<noteq> []
        \<and> (matchingLines L R (fc_term c) = [] \<longrightarrow> fc_emoji c = defaultEmoji)
        \<and> (fc_emoji c \<noteq> defaultEmoji \<longrightarrow>
             (\<exists>line\<in>set (matchingLines L R (fc_term c)). fc_emoji c = snd (splitTermRest line)))
        \<and> (fc_term c \<noteq> []
             \<and> (\<exists>k<length pairs. fst (pairs ! k) = fc_term c
                    \<and> (\<forall>j<k. L (fst (pairs ! j)) \<noteq> L (fc_term c)))
             \<and> matchingLines L R (fc_term c) \<noteq> [] \<longrightarrow>
             fc_emoji c =
               (if snd (splitTermRest (last (matchingLines L R (fc_term c)))) \<noteq> []
                then snd (splitTermRest (last (matchingLines L R (fc_term c))))
                else defaultEmoji)))"
proof -
  have t: "map fc_term (keyValueCards L pairs R) = map fst pairs"
    by (simp add: keyValueCards_def combine_def split_def comp_def)
  have d: "map fc_definition (keyValueCards L pairs R) = map snd pairs"
    by (simp add: keyValueCards_def combine_def split_def comp_def)
  have e: "\<forall>c\<in>set (keyValueCards L pairs R).
          fc_emoji c = emojiFor (emojiMap L (map fst pairs) R) (fc_term c)"
    by (auto simp: keyValueCards_def combine_def)
  have f: "findOriginal L (map fst pairs) u = Some u"
    if "\<exists>k<length pairs. fst (pairs ! k) = u \<and> (\<forall>j<k. L (fst (pairs ! j)) \<noteq> L u)" for u
  proof -
    from that obtain k where k: "k < length pairs" "fst (pairs ! k) = u"
      "\<forall>j<k. L (fst (pairs ! j)) \<noteq> L u" by blast
    show ?thesis
    proof (rule findOriginal_first_of_case [of k])
      show "k < length (map fst pairs)" using k(1) by simp
      show "map fst pairs ! k = u" using k(1,2) by simp
      show "\<forall>j<k. L (map fst pairs ! j) \<noteq> L u" using k(1,3) by simp
    qed
  qed
  have g: "emojiFor (emojiMap L (map fst pairs) R) u =
             (if snd (splitTermRest (last (matchingLines L R u))) \<noteq> []
              then snd (splitTermRest (last (matchingLines L R u))) else defaultEmoji)"
    if "u \<noteq> []"
      "\<exists>k<length pairs. fst (pairs ! k) = u \<and> (\<forall>j<k. L (fst (pairs ! j)) \<noteq> L u)"
      "matchingLines L R u \<noteq> []" for u
    using emojiFor_first [OF f [OF that(2)] that(1) that(3)] .
  from t d e show ?thesis
    using emojiFor_nonempty emojiFor_no_match emojiFor_from_line g
    by simp
qed

theorem emoji_matching_case_insensitive_witness:
  "map fc_term (keyValueCards lowerASCII examplePairs exampleEmojis)
     = [js ''Cat'', js ''Dog'', js ''Emu'']
   \<and> map fc_emoji (keyValueCards lowerASCII examplePairs exampleEmojis)
     = [js ''c'', defaultEmoji, defaultEmoji]
   \<and> matchingLines lowerASCII exampleEmojis (js ''Cat'') = [js ''CAT: c'']
   \<and> matchingLines lowerASCII exampleEmojis (js ''Dog'') = []
   \<and> matchingLines lowerASCII exampleEmojis (js ''Emu'') = [js ''emu:'']
   \<and> (\<exists>k<length examplePairs. fst (examplePairs ! k) = js ''Cat''
          \<and> (\<forall>j<k. lowerASCII (fst (examplePairs ! j)) \<noteq> lowerASCII (js ''Cat'')))
   \<and> (\<exists>k<length examplePairs. fst (examplePairs ! k) = js ''Emu''
          \<and> (\<forall>j<k. lowerASCII (fst (examplePairs ! j)) \<noteq> lowerASCII (js ''Emu'')))"
proof -
  have c: "colonLines exampleEmojis = [js ''CAT: c'', js ''Zebra: z'', js ''emu:'']"
    by (simp add: colonLines_def exampleEmojis_def js_def newline_def colon_def trim_def
        isWhiteSpace_def includes_js_def)
  have m: "matchingLines lowerASCII exampleEmojis (js ''Cat'') = [js ''CAT: c'']"
    "matchingLines lowerASCII exampleEmojis (js ''Dog'') = []"
    "matchingLines lowerASCII exampleEmojis (js ''Emu'') = [js ''emu:'']"
    by (simp_all add: matchingLines_def c splitTermRest_def lowerASCII_def js_def colon_def
        trim_def isWhiteSpace_def)
  have f1: "\<exists>k<length examplePairs. fst (examplePairs ! k) = js ''Cat''
          \<and> (\<forall>j<k. lowerASCII (fst (examplePairs ! j)) \<noteq> lowerASCII (js ''Cat''))"
    by (rule exI [of _ 0]) (simp add: examplePairs_def)
  have f2: "\<exists>k<length examplePairs. fst (examplePairs ! k) = js ''Emu''
          \<and> (\<forall>j<k. lowerASCII (fst (examplePairs ! j)) \<noteq> lowerASCII (js ''Emu''))"
  proof -
    have a: "lowerASCII (fst (examplePairs ! 0)) \<noteq> lowerASCII (js ''Emu'')"
      "lowerASCII (fst (examplePairs ! 1)) \<noteq> lowerASCII (js ''Emu'')"
      by (simp_all add: examplePairs_def lowerASCII_def js_def)
    have "\<forall>j<2. lowerASCII (fst (examplePairs ! j)) \<noteq> lowerASCII (js ''Emu'')"
    proof (intro allI impI)
      fix j :: nat
      assume "j < 2"
      then have "j = 0 \<or> j = 1" by auto
      with a show "lowerASCII (fst (examplePairs ! j)) \<noteq> lowerASCII (js ''Emu'')" by auto
    qed
    moreover have "(2::nat) < length examplePairs" "fst (examplePairs ! 2) = js ''Emu''"
      by (simp_all add: examplePairs_def)
    ultimately show ?thesis by blast
  qed
  have s: "snd (splitTermRest (js ''CAT: c'')) = js ''c''" "snd (splitTermRest (js ''emu:'')) = []"
    by (simp_all add: splitTermRest_def js_def colon_def trim_def isWhiteSpace_def)
  have k: "keyValueCards lowerASCII examplePairs exampleEmojis =
     [\<lparr>fc_emoji = emojiFor (emojiMap lowerASCII (map fst examplePairs) exampleEmojis) (js ''Cat''),
        fc_term = js ''Cat'', fc_definition = js ''A feline''\<rparr>,
      \<lparr>fc_emoji = emojiFor (emojiMap lowerASCII (map fst examplePairs) exampleEmojis) (js ''Dog''),
        fc_term = js ''Dog'', fc_definition = js ''A canine''\<rparr>,
      \<lparr>fc_emoji = emojiFor (emojiMap lowerASCII (map fst examplePairs) exampleEmojis) (js ''Emu''),
        fc_term = js ''Emu'', fc_definition = js ''A bird''\<rparr>]"
    by (simp add: keyValueCards_def combine_def examplePairs_def)
  have n: "js ''Cat'' \<noteq> []" "js ''Emu'' \<noteq> []" "js ''c'' \<noteq> []"
    by (simp_all add: js_def)
  have r: "map fc_term (keyValueCards lowerASCII examplePairs exampleEmojis)
     = [js ''Cat'', js ''Dog'', js ''Emu'']
   \<and> map fc_emoji (keyValueCards lowerASCII examplePairs exampleEmojis)
     = [js ''c'', defaultEmoji, defaultEmoji]"
    using emoji_matching_case_insensitive [of lowerASCII examplePairs exampleEmojis] f1 f2
    by (simp add: k m s n)
  from r m f1 f2 show ?thesis by blast
qed


section \<open>Example states\<close>

lemma threeRecords_parsed: "freeFormCards threeLines = threeRecords"
  by (simp add: freeFormCards_def nonBlankLines_def tripletOfLine_def threeLines_def
      threeRecords_def js_def newline_def colon_def trim_def isWhiteSpace_def
      List.map_filter_simps)

lemma threeCards_generated:
  "generateClick L (Inr threeLines) (initialView\<lparr>topicInput := js ''animals''\<rparr>) = threeCards"
proof -
  have t: "trim (js ''animals'') = js ''animals''" "js ''animals'' \<noteq> []"
    "\<not> isKeyValueInput (js ''animals'')"
    by (simp_all add: js_def trim_def isWhiteSpace_def isKeyValueInput_def includes_js_def
        colon_def newline_def)
  have g: "generate L (js ''animals'') (Inr threeLines) = Inr threeRecords"
    by (simp add: generate_def t freeFormGenerate_def nonEmptyOrFail_def threeRecords_parsed)
      (simp add: threeRecords_def)
  show ?thesis
    by (simp add: generateClick_def t g Let_def threeCards_def initialView_def resetUI_def
        addCards_def updateCardVisibility_def)
qed


section \<open>ViewState: recomputing the visibility\<close>

lemma map_enumerate_snd: "map (\<lambda>(i, c). f c) (enumerate n cs) = map f cs"
  by (induction cs arbitrary: n) simp_all

lemma length_setActive: "length (setActive k cs) = length cs"
  by (simp add: setActive_def)

lemma map_flipped_setActive: "map flipped (setActive k cs) = map flipped cs"
  using map_enumerate_snd [of flipped 0 cs] by (simp add: setActive_def split_def comp_def)

lemma map_handle_setActive: "map handle (setActive k cs) = map handle cs"
  using map_enumerate_snd [of handle 0 cs] by (simp add: setActive_def split_def comp_def)

lemma nth_setActive:
  "i < length cs \<Longrightarrow> setActive k cs ! i = (cs ! i)\<lparr>active := (i = k)\<rparr>"
  by (simp add: setActive_def nth_enumerate_eq)

lemma isFocusMode_update:
  "isFocusMode (updateCardVisibility s) = (isFocusMode s \<and> cards s \<noteq> [])"
  by (simp add: updateCardVisibility_def Let_def)

lemma currentCardIndex_update:
  "currentCardIndex (updateCardVisibility s) = currentCardIndex s"
  by (simp add: updateCardVisibility_def Let_def)

lemma length_cards_update:
  "length (cards (updateCardVisibility s)) = length (cards s)"
  by (simp add: updateCardVisibility_def Let_def length_setActive)

lemma flipped_cards_update:
  "map flipped (cards (updateCardVisibility s)) = map flipped (cards s)"
  by (simp add: updateCardVisibility_def Let_def map_flipped_setActive comp_def)

lemma handle_cards_update:
  "map handle (cards (updateCardVisibility s)) = map handle (cards s)"
  by (simp add: updateCardVisibility_def Let_def map_handle_setActive comp_def)

lemma js_rem_nonneg: "0 \<le> a \<Longrightarrow> 0 < b \<Longrightarrow> js_rem a b = a mod b"
  by (cases "a = 0") (simp_all add: js_rem_def)

lemma newIndex_mod:
  assumes "2 \<le> n"
  shows "newIndex d i n = (int i + (case d of Next \<Rightarrow> 1 | Prev \<Rightarrow> - 1)) mod int n"
proof (cases d)
  case Next
  with assms show ?thesis by (simp add: newIndex_def js_rem_nonneg)
next
  case Prev
  have "js_rem (int i - 1 + int n) (int n) = (int i - 1 + int n) mod int n"
    using assms by (intro js_rem_nonneg) auto
  also have "\<dots> = (int i - 1) mod int n" by simp
  finally show ?thesis using Prev by (simp add: newIndex_def)
qed

lemma newIndex_range:
  assumes "2 \<le> n"
  shows "0 \<le> newIndex d i n \<and> newIndex d i n < int n"
  using assms by (simp add: newIndex_mod)

lemma length_unflipAt: "length (unflipAt i cs) = length cs"
  by (simp add: unflipAt_def)

lemma flipped_unflipAt:
  "k < length cs \<Longrightarrow> flipped (unflipAt i cs ! k) = (k \<noteq> i \<and> flipped (cs ! k))"
  by (auto simp: unflipAt_def nth_list_update)

lemma handle_unflipAt: "map handle (unflipAt i cs) = map handle cs"
  by (auto simp: unflipAt_def map_update intro: nth_equalityI simp: nth_list_update)


section \<open>ViewState: navigation\<close>

text \<open>
  Claim C7. With fewer than two cards, navigating changes nothing at all. With two or
  more it keeps the mode and the cards, clears the flipped flag of the card at the current
  index and of no other card, and moves the index by one, forwards or backwards, modulo
  the number of cards: next from the last index gives 0, previous from 0 gives the last
  index.
\<close>

theorem navigateCards_wraps:
  "(length (cards s) < 2 \<longrightarrow> navigateCards d s = s)
   \<and> (2 \<le> length (cards s) \<longrightarrow>
        isFocusMode (navigateCards d s) = isFocusMode s
        \<and> map handle (cards (navigateCards d s)) = map handle (cards s)
        \<and> int (currentCardIndex (navigateCards d s)) =
            (int (currentCardIndex s) + (case d of Next \<Rightarrow> 1 | Prev \<Rightarrow> - 1))
              mod int (length (cards s))
        \<and> (\<forall>k<length (cards s).
              flipped (cards (navigateCards d s) ! k) =
                (k \<noteq> currentCardIndex s \<and> flipped (cards s ! k)))
        \<and> (currentCardIndex s = length (cards s) - 1 \<longrightarrow>
              currentCardIndex (navigateCards Next s) = 0)
        \<and> (currentCardIndex s = 0 \<longrightarrow>
              currentCardIndex (navigateCards Prev s) = length (cards s) - 1))"
proof -
  have small: "navigateCards d s = s" if "length (cards s) < 2"
    using that by (simp add: navigateCards_def)
  have big: "isFocusMode (navigateCards d s) = isFocusMode s
        \<and> map handle (cards (navigateCards d s)) = map handle (cards s)
        \<and> int (currentCardIndex (navigateCards d s)) =
            (int (currentCardIndex s) + (case d of Next \<Rightarrow> 1 | Prev \<Rightarrow> - 1))
              mod int (length (cards s))
        \<and> (\<forall>k<length (cards s).
              flipped (cards (navigateCards d s) ! k) =
                (k \<noteq> currentCardIndex s \<and> flipped (cards s ! k)))"
    if n: "2 \<le> length (cards s)" for d
  proof -
    define s1 where "s1 = s\<lparr>cards := unflipAt (currentCardIndex s) (cards s),
                currentCardIndex := nat (newIndex d (currentCardIndex s) (length (cards s)))\<rparr>"
    have nav: "navigateCards d s = updateCardVisibility s1"
      using n by (simp add: navigateCards_def s1_def)
    have c1: "cards s1 = unflipAt (currentCardIndex s) (cards s)"
      and f1: "isFocusMode s1 = isFocusMode s"
      and i1: "currentCardIndex s1 = nat (newIndex d (currentCardIndex s) (length (cards s)))"
      by (simp_all add: s1_def)
    have ne: "cards s1 \<noteq> []"
      using n length_unflipAt [of "currentCardIndex s" "cards s"] by (auto simp: c1)
    have a: "isFocusMode (navigateCards d s) = isFocusMode s"
      by (simp add: nav isFocusMode_update f1 ne)
    have b: "map handle (cards (navigateCards d s)) = map handle (cards s)"
      by (simp add: nav handle_cards_update c1 handle_unflipAt)
    have c: "int (currentCardIndex (navigateCards d s)) =
            (int (currentCardIndex s) + (case d of Next \<Rightarrow> 1 | Prev \<Rightarrow> - 1))
              mod int (length (cards s))"
      using newIndex_range [OF n, of d "currentCardIndex s"] newIndex_mod [OF n, of d "currentCardIndex s"]
      by (simp add: nav currentCardIndex_update i1)
    have d: "flipped (cards (navigateCards d s) ! k) =
                (k \<noteq> currentCardIndex s \<and> flipped (cards s ! k))"
      if k: "k < length (cards s)" for k
    proof -
      have "flipped (cards (navigateCards d s) ! k) = map flipped (cards (navigateCards d s)) ! k"
        using k by (simp add: nav length_cards_update c1 length_unflipAt)
      also have "\<dots> = map flipped (unflipAt (currentCardIndex s) (cards s)) ! k"
        by (simp add: nav flipped_cards_update c1)
      also have "\<dots> = flipped (unflipAt (currentCardIndex s) (cards s) ! k)"
        using k by (simp add: length_unflipAt)
      finally show ?thesis using k by (simp add: flipped_unflipAt)
    qed
    from a b c d show ?thesis by blast
  qed
  have last: "currentCardIndex (navigateCards Next s) = 0"
    if n: "2 \<le> length (cards s)" and l: "currentCardIndex s = length (cards s) - 1"
  proof -
    have "int (currentCardIndex s) + 1 = int (length (cards s))"
      using n l by simp
    with big [OF n, of Next] show ?thesis by simp
  qed
  have first: "currentCardIndex (navigateCards Prev s) = length (cards s) - 1"
    if n: "2 \<le> length (cards s)" and l: "currentCardIndex s = 0"
  proof -
    have "(- 1) mod int (length (cards s)) = (- 1 + int (length (cards s))) mod int (length (cards s))"
      by simp
    also have "\<dots> = int (length (cards s)) - 1"
      using n by (subst mod_pos_pos_trivial) auto
    finally have "(- 1) mod int (length (cards s)) = int (length (cards s)) - 1" .
    with big [OF n, of Prev] l have "int (currentCardIndex (navigateCards Prev s)) = int (length (cards s)) - 1"
      by simp
    then show ?thesis using n by linarith
  qed
  from small big last first show ?thesis by blast
qed


theorem navigateCards_wraps_witness:
  "navigateCards Next initialView = initialView
   \<and> currentCardIndex focusedOnLast = 2
   \<and> currentCardIndex (navigateCards Next focusedOnLast) = 0
   \<and> currentCardIndex (modeSwitchClick threeCards) = 0
   \<and> currentCardIndex (navigateCards Prev (modeSwitchClick threeCards)) = 2
   \<and> isFocusMode (navigateCards Next focusedOnLast)"
proof -
  have a: "length (cards initialView) < 2" by (simp add: initialView_def)
  have b: "length (cards focusedOnLast) = 3" "currentCardIndex focusedOnLast = 2"
    "isFocusMode focusedOnLast"
    by code_simp+
  have c: "length (cards (modeSwitchClick threeCards)) = 3"
    "currentCardIndex (modeSwitchClick threeCards) = 0"
    by code_simp+
  show ?thesis
    using navigateCards_wraps [of initialView Next] navigateCards_wraps [of focusedOnLast Next]
      navigateCards_wraps [of "modeSwitchClick threeCards" Prev]
    by (simp add: a b c)
qed


section \<open>ViewState: mode switch and removal\<close>




text \<open>
  The same happens on a page the handlers reach with the mode switch shown: after a
  request with a blank topic the cards are gone, the switch is still visible, and a click
  on it leaves grid mode in place.
\<close>

lemma modeSwitch_after_blank_generate:
  "cards (generateClick L reply threeCards) = []
   \<and> \<not> modeSwitchHidden (generateClick L reply threeCards)
   \<and> \<not> isFocusMode (generateClick L reply threeCards)
   \<and> \<not> isFocusMode (modeSwitchClick (generateClick L reply threeCards))"
proof -
  have t: "topicInput threeCards = []" "\<not> isFocusMode threeCards" "\<not> modeSwitchHidden threeCards"
    by code_simp+
  have "trim [] = []" by (simp add: trim_def)
  with t have g: "generateClick L reply threeCards =
     threeCards\<lparr>errorMessage := ''Please enter a topic or some terms and definitions.'',
                cards := []\<rparr>"
    by (simp add: generateClick_def Let_def)
  show ?thesis
    using t by (simp add: g modeSwitchClick_def updateCardVisibility_def Let_def)
qed




section \<open>Shuffle\<close>

lemma insertBefore_Some:
  "child \<in> set children \<Longrightarrow> \<exists>ys. insertBefore node child children = Some ys"
  by (simp add: insertBefore_def Let_def)

lemma mset_takeWhile_dropWhile:
  "mset (takeWhile P r @ x # dropWhile P r) = add_mset x (mset r)"
proof -
  have "mset (takeWhile P r) + mset (dropWhile P r) = mset r"
    by (metis mset_append takeWhile_dropWhile_id)
  then show ?thesis by simp
qed

lemma mset_insertBefore:
  assumes "insertBefore node child children = Some ys" "node \<in> set children"
  shows "mset ys = mset children"
proof (cases "node = child")
  case True
  with assms show ?thesis by (simp add: insertBefore_def split: if_splits)
next
  case False
  with assms(1) have "ys = takeWhile (\<lambda>x. x \<noteq> child) (remove1 node children)
                        @ node # dropWhile (\<lambda>x. x \<noteq> child) (remove1 node children)"
    by (simp add: insertBefore_def Let_def split: if_splits)
  then have "mset ys = add_mset node (mset (remove1 node children))"
    by (simp only: mset_takeWhile_dropWhile)
  with assms(2) show ?thesis by simp
qed

lemma shuffleLoop_mset:
  assumes "\<forall>i. 0 < i \<and> i \<le> k \<longrightarrow> rnd i \<le> i" "k = 0 \<or> k < length xs"
    "mset children = mset xs"
  shows "\<exists>ys. shuffleLoop rnd xs k children = Some ys \<and> mset ys = mset xs"
  using assms
proof (induction k arbitrary: children)
  case 0
  then show ?case by simp
next
  case (Suc k)
  from Suc.prems have i: "Suc k < length xs" and j: "rnd (Suc k) \<le> Suc k" by auto
  then have jl: "rnd (Suc k) < length xs" by simp
  have s: "set children = set xs"
    using Suc.prems(3) by (rule mset_eq_setD)
  from i s have "xs ! Suc k \<in> set children" by simp
  then have "\<exists>ys. insertBefore (xs ! rnd (Suc k)) (xs ! Suc k) children = Some ys"
    by (rule insertBefore_Some)
  then obtain c' where c': "insertBefore (xs ! rnd (Suc k)) (xs ! Suc k) children = Some c'"
    by blast
  from jl s have "xs ! rnd (Suc k) \<in> set children" by simp
  with c' have m: "mset c' = mset xs"
    using mset_insertBefore Suc.prems(3) by fastforce
  have "\<exists>ys. shuffleLoop rnd xs k c' = Some ys \<and> mset ys = mset xs"
  proof (rule Suc.IH)
    show "\<forall>i. 0 < i \<and> i \<le> k \<longrightarrow> rnd i \<le> i" using Suc.prems(1) by simp
    show "k = 0 \<or> k < length xs" using i by simp
    show "mset c' = mset xs" by (rule m)
  qed
  with i jl c' show ?case by (simp add: Let_def)
qed

lemma shuffle_mset:
  assumes "\<forall>i<length xs. rnd i \<le> i"
  shows "\<exists>ys. shuffle rnd xs = Some ys \<and> mset ys = mset xs"
  unfolding shuffle_def
proof (rule shuffleLoop_mset)
  show "\<forall>i. 0 < i \<and> i \<le> length xs - 1 \<longrightarrow> rnd i \<le> i"
    using assms by auto
  show "length xs - 1 = 0 \<or> length xs - 1 < length xs"
    by (cases xs) auto
  show "mset xs = mset xs" ..
qed

text \<open>
  Claim C9. For every page, of any number of cards, and all random choices (each \<open>j\<close> of
  round \<open>i\<close> at most \<open>i\<close>), the shuffle handler does not raise, changes nothing but the
  order of the cards, and the cards afterwards are the same multiset as before.
\<close>

theorem shuffle_is_permutation:
  assumes "\<forall>i<length (cards s). rnd i \<le> i"
  shows "\<exists>s'. shuffleClick rnd s = Some s'
           \<and> mset (cards s') = mset (cards s)
           \<and> mset (map handle (cards s')) = mset (map handle (cards s))
           \<and> length (cards s') = length (cards s)
           \<and> s' = s\<lparr>cards := cards s'\<rparr>"
proof -
  from shuffle_mset [OF assms] obtain ys
    where ys: "shuffle rnd (cards s) = Some ys" "mset ys = mset (cards s)"
    by blast
  from ys(2) have "length ys = length (cards s)" by (rule mset_eq_length)
  moreover from ys(2) have "mset (map handle ys) = mset (map handle (cards s))" by simp
  ultimately show ?thesis using ys by (simp add: shuffleClick_def)
qed

theorem shuffle_is_permutation_witness:
  "map_option (\<lambda>s'. map handle (cards s')) (shuffleClick (\<lambda>i. i mod 2) threeCards) = Some [1, 0, 2]
   \<and> (\<exists>s'. shuffleClick (\<lambda>i. i mod 2) threeCards = Some s'
             \<and> mset (cards s') = mset (cards threeCards))
   \<and> (\<exists>s'. shuffleClick (\<lambda>i. 0) initialView = Some s'
             \<and> mset (cards s') = mset (cards initialView))"
proof -
  have a: "map_option (\<lambda>s'. map handle (cards s')) (shuffleClick (\<lambda>i. i mod 2) threeCards) = Some [1, 0, 2]"
    by code_simp
  have b: "\<forall>i<length (cards threeCards). (\<lambda>i. i mod 2) i \<le> i" by simp
  have c: "\<forall>i<length (cards initialView). (\<lambda>i. 0) i \<le> i" by simp
  show ?thesis
    using a shuffle_is_permutation [OF b] shuffle_is_permutation [OF c] by blast
qed

text \<open>
  Claim C3. The handler's loop is not the swap-based algorithm its comment names: on three
  cards with every choice 0 it gives back the original order where the reference gives
  \<open>[1, 2, 0]\<close>, and with the choices 0 then 1 it gives \<open>[1, 0, 2]\<close> where the
  reference gives \<open>[2, 1, 0]\<close>.
\<close>

theorem shuffle_differs_from_fisherYates:
  "shuffle (\<lambda>i. 0) [0, 1, 2 :: nat] = Some [0, 1, 2]
   \<and> fisherYates (\<lambda>i. 0) [0, 1, 2 :: nat] = [1, 2, 0]
   \<and> shuffle (\<lambda>i. i mod 2) [0, 1, 2 :: nat] = Some [1, 0, 2]
   \<and> fisherYates (\<lambda>i. i mod 2) [0, 1, 2 :: nat] = [2, 1, 0]"
  by code_simp

lemma remove1_not_last:
  "cs \<noteq> [] \<Longrightarrow> node \<noteq> last cs \<Longrightarrow>
     remove1 node cs \<noteq> [] \<and> last (remove1 node cs) = last cs"
proof (induction cs)
  case Nil
  then show ?case by simp
next
  case (Cons a cs)
  show ?case
  proof (cases "cs = []")
    case True
    with Cons.prems show ?thesis by simp
  next
    case False
    with Cons.prems have "node \<noteq> last cs" by simp
    with False Cons.IH have "remove1 node cs \<noteq> [] \<and> last (remove1 node cs) = last cs"
      by simp
    with False show ?thesis by simp
  qed
qed

lemma last_dropWhile: "dropWhile P r \<noteq> [] \<Longrightarrow> last (dropWhile P r) = last r"
  by (metis last_appendR takeWhile_dropWhile_id)

lemma insertBefore_last:
  assumes "insertBefore node child cs = Some ys" "node = child \<or> node \<noteq> last cs"
  shows "ys \<noteq> [] \<and> last ys = last cs"
proof (cases "node = child")
  case True
  with assms(1) show ?thesis by (auto simp: insertBefore_def split: if_splits)
next
  case False
  with assms(2) have nl: "node \<noteq> last cs" by simp
  from assms(1) have c: "child \<in> set cs" by (simp add: insertBefore_def split: if_splits)
  let ?r = "remove1 node cs"
  from assms(1) False have ys: "ys = takeWhile (\<lambda>x. x \<noteq> child) ?r @ node # dropWhile (\<lambda>x. x \<noteq> child) ?r"
    by (simp add: insertBefore_def Let_def split: if_splits)
  from c False have "child \<in> set ?r" by simp
  then have d: "dropWhile (\<lambda>x. x \<noteq> child) ?r \<noteq> []" by simp
  have "last ys = last (dropWhile (\<lambda>x. x \<noteq> child) ?r)"
    unfolding ys using d by (simp del: dropWhile_eq_Nil_conv)
  also have "\<dots> = last ?r" using d by (rule last_dropWhile)
  also have "\<dots> = last cs"
  proof -
    from c have "cs \<noteq> []" by auto
    then show ?thesis using remove1_not_last [of cs node] nl by simp
  qed
  finally show ?thesis by (simp add: ys)
qed

lemma shuffleLoop_keeps_last:
  assumes "distinct xs" "k < length xs" "\<forall>i. 0 < i \<and> i \<le> k \<longrightarrow> rnd i \<le> i"
    "children \<noteq> []" "last children = last xs" "shuffleLoop rnd xs k children = Some ys"
  shows "last ys = last xs"
  using assms
proof (induction k arbitrary: children)
  case 0
  then show ?case by simp
next
  case (Suc k)
  let ?i = "Suc k" and ?j = "rnd (Suc k)"
  from Suc.prems have i: "?i < length xs" and j: "?j \<le> ?i" by auto
  from Suc.prems(6) i j obtain c' where
    c': "insertBefore (xs ! ?j) (xs ! ?i) children = Some c'"
    and r: "shuffleLoop rnd xs k c' = Some ys"
    by (auto simp: Let_def split: option.splits if_splits)
  have "xs ! ?j = xs ! ?i \<or> xs ! ?j \<noteq> last children"
  proof (cases "?j = ?i")
    case True
    then show ?thesis by simp
  next
    case False
    with i j have "?j < length xs - 1" by simp
    moreover have "xs \<noteq> []" using i by auto
    ultimately have "xs ! ?j \<noteq> last xs"
      using Suc.prems(1) by (simp add: last_conv_nth nth_eq_iff_index_eq)
    then show ?thesis by (simp add: Suc.prems(5))
  qed
  with c' have l: "c' \<noteq> [] \<and> last c' = last children" by (rule insertBefore_last)
  show ?case
  proof (rule Suc.IH [OF Suc.prems(1)])
    show "k < length xs" using i by simp
    show "\<forall>i. 0 < i \<and> i \<le> k \<longrightarrow> rnd i \<le> i" using Suc.prems(3) by simp
    show "c' \<noteq> []" using l by simp
    show "last c' = last xs" using l Suc.prems(5) by simp
    show "shuffleLoop rnd xs k c' = Some ys" by (rule r)
  qed
qed

text \<open>Whatever the random choices, the last child stays the last child.\<close>

lemma shuffle_keeps_last:
  assumes "distinct xs" "xs \<noteq> []" "\<forall>i<length xs. rnd i \<le> i" "shuffle rnd xs = Some ys"
  shows "last ys = last xs"
proof (rule shuffleLoop_keeps_last [OF assms(1)])
  show "length xs - 1 < length xs" using assms(2) by (cases xs) auto
  show "\<forall>i. 0 < i \<and> i \<le> length xs - 1 \<longrightarrow> rnd i \<le> i" using assms(3) by auto
  show "xs \<noteq> []" by (rule assms(2))
  show "last xs = last xs" ..
  show "shuffleLoop rnd xs (length xs - 1) xs = Some ys" using assms(4) by (simp add: shuffle_def)
qed


section \<open>The focus invariant\<close>

lemma focusInvariant_initial: "focusInvariant initialView"
  by (simp add: focusInvariant_def initialView_def)

lemma focusInvariant_modeSwitch: "focusInvariant (modeSwitchClick s)"
proof -
  have "length (cards (modeSwitchClick s)) = length (cards s)"
    by (simp add: modeSwitchClick_def Let_def length_cards_update)
  moreover have "isFocusMode (modeSwitchClick s) \<longrightarrow> currentCardIndex (modeSwitchClick s) = 0"
    by (simp add: modeSwitchClick_def Let_def isFocusMode_update currentCardIndex_update)
  ultimately show ?thesis by (auto simp: focusInvariant_def)
qed

lemma focusInvariant_navigate:
  assumes "focusInvariant s"
  shows "focusInvariant (navigateCards d s)"
proof (cases "length (cards s) \<le> 1")
  case True
  with assms show ?thesis by (simp add: navigateCards_def)
next
  case False
  then have n: "2 \<le> length (cards s)" by simp
  have "currentCardIndex (navigateCards d s) = nat (newIndex d (currentCardIndex s) (length (cards s)))"
    using False by (simp add: navigateCards_def currentCardIndex_update)
  moreover have "length (cards (navigateCards d s)) = length (cards s)"
    using False by (simp add: navigateCards_def length_cards_update length_unflipAt)
  moreover have "nat (newIndex d (currentCardIndex s) (length (cards s))) < length (cards s)"
    using newIndex_range [OF n, of d "currentCardIndex s"] by linarith
  ultimately show ?thesis by (simp add: focusInvariant_def)
qed

lemma focusInvariant_shuffle:
  assumes "focusInvariant s" "\<forall>i<length (cards s). rnd i \<le> i"
  shows "\<exists>s'. shuffleClick rnd s = Some s' \<and> focusInvariant s'"
proof -
  from shuffle_mset [OF assms(2)] obtain ys
    where ys: "shuffle rnd (cards s) = Some ys" "mset ys = mset (cards s)"
    by blast
  from ys(2) have "length ys = length (cards s)" by (rule mset_eq_length)
  with assms(1) ys(1) show ?thesis
    by (auto simp: shuffleClick_def focusInvariant_def)
qed

lemma focusInvariant_generate: "focusInvariant (generateClick L reply s)"
proof -
  have "cards (generateClick L reply s) = [] \<or> \<not> isFocusMode (generateClick L reply s)"
    by (simp add: generateClick_def Let_def isFocusMode_update resetUI_def addCards_def
        split: sum.splits)
  then show ?thesis by (auto simp: focusInvariant_def)
qed

lemma focusInvariant_flip: "focusInvariant s \<Longrightarrow> focusInvariant (flipClick h s)"
  by (simp add: focusInvariant_def flipClick_def)

lemma focusInvariant_delete: "focusInvariant s \<Longrightarrow> focusInvariant (deleteClick h s)"
  by (simp add: focusInvariant_def deleteClick_def)

text \<open>
  Claim C1. Removing a card does not restore the invariant. On the page with three cards,
  in focus mode on the last of them (index 2), removing that card leaves two cards, focus
  mode and the index 2: no card is the active one and the counter reads 3 of 2.
\<close>

theorem removeCard_leaves_index_beyond_end:
  "isFocusMode focusedOnLast
   \<and> map handle (cards focusedOnLast) = [0, 1, 2]
   \<and> currentCardIndex focusedOnLast = 2
   \<and> isFocusMode (removeCard 2 focusedOnLast)
   \<and> map handle (cards (removeCard 2 focusedOnLast)) = [0, 1]
   \<and> currentCardIndex (removeCard 2 focusedOnLast) = 2
   \<and> map active (cards (removeCard 2 focusedOnLast)) = [False, False]
   \<and> cardCounter (removeCard 2 focusedOnLast) = (3, 2)"
  by code_simp

theorem removeCard_breaks_focusInvariant:
  "focusInvariant focusedOnLast \<and> \<not> focusInvariant (removeCard 2 focusedOnLast)"
proof -
  note t = removeCard_leaves_index_beyond_end
  from t have "map handle (cards focusedOnLast) = [0, 1, 2]" by simp
  then have "length (map handle (cards focusedOnLast)) = length [0, 1, 2 :: nat]"
    by (simp only:)
  then have a: "length (cards focusedOnLast) = 3" by simp
  from t have "map handle (cards (removeCard 2 focusedOnLast)) = [0, 1]" by simp
  then have "length (map handle (cards (removeCard 2 focusedOnLast))) = length [0, 1 :: nat]"
    by (simp only:)
  then have b: "length (cards (removeCard 2 focusedOnLast)) = 2" by simp
  then have c: "cards (removeCard 2 focusedOnLast) \<noteq> []" by auto
  from t a b c show ?thesis by (simp add: focusInvariant_def)
qed

end
